theory Spec2Isabelle
  imports Complex_Main "HOL-Library.Sublist"
begin

section \<open>Data model of the error pattern detector\<close>

text \<open>
  The detector of \<^verbatim>\<open>sweagent/agent/pattern_detector.py\<close> keeps a list of error entries
  and a counter per error type. The error type of an entry is always a value returned by
  \<^verbatim>\<open>_classify_error\<close>: one of the six keys of \<^verbatim>\<open>known_patterns\<close> or
  \<^verbatim>\<open>'unknown'\<close>. The type is a datatype; \<open>type_name\<close> gives the Python string.
\<close>

datatype error_type = Indentation | Syntax | Undefined | Import | TypeErr | Logic | Unknown

fun type_name :: "error_type \<Rightarrow> string" where
  "type_name Indentation = ''indentation''"
| "type_name Syntax = ''syntax''"
| "type_name Undefined = ''undefined''"
| "type_name Import = ''import''"
| "type_name TypeErr = ''type''"
| "type_name Logic = ''logic''"
| "type_name Unknown = ''unknown''"

text \<open>
  The value stored under the key \<^verbatim>\<open>'message'\<close> is any Python value. The model has
  \<^verbatim>\<open>None\<close>, booleans, integers and strings; \<open>truthy\<close> is Python's truth test.
\<close>

datatype pyval = PyNone | PyBool bool | PyInt int | PyStr string

fun truthy :: "pyval \<Rightarrow> bool" where
  "truthy PyNone = False"
| "truthy (PyBool b) = b"
| "truthy (PyInt n) = (n \<noteq> 0)"
| "truthy (PyStr s) = (s \<noteq> [])"

text \<open>The exceptions that leave \<^verbatim>\<open>add_error\<close>.\<close>

datatype exn = ValueError | TypeError

text \<open>
  The dictionary passed to \<^verbatim>\<open>add_error\<close>: a field is \<open>None\<close> when its key is
  absent from the dictionary.
\<close>

record error_info =
  info_message :: "pyval option"
  info_file :: "string option"
  info_line :: "int option"
  info_action :: "string option"
  info_code_snippet :: "string option"
  info_traceback :: "string option"

text \<open>An entry of \<^verbatim>\<open>error_history\<close>, with the keys of the source (\<open>file_name\<close> is the
  key \<^verbatim>\<open>file\<close>, a reserved word here).\<close>

record error_entry =
  timestamp :: nat
  error_type :: error_type
  message :: pyval
  file_name :: string
  line :: int
  action :: string
  code_snippet :: string
  traceback :: string

text \<open>
  The detector. \<^verbatim>\<open>pattern_counters\<close> is a \<^verbatim>\<open>defaultdict(int)\<close>: a dictionary
  iterates in insertion order, so it is an association list in that order.
\<close>

record detector =
  error_history :: "error_entry list"
  pattern_counters :: "(error_type \<times> nat) list"

definition init :: detector where
  "init = \<lparr>error_history = [], pattern_counters = []\<rparr>"

section \<open>Classification\<close>

text \<open>
  The regular expressions of \<^verbatim>\<open>known_patterns\<close> are alternations of literal texts,
  two of which hold one \<^verbatim>\<open>.*\<close>. A pattern is the list of its alternatives, an
  alternative the list of its literal parts, which \<^verbatim>\<open>.*\<close> joins.
  \<^verbatim>\<open>re.search\<close> with \<^verbatim>\<open>re.IGNORECASE\<close> looks for an alternative at any
  position of the message, comparing ASCII letters without case; \<^verbatim>\<open>.\<close> matches
  any character but a newline. A message is a string of bytes here: the few letters
  outside ASCII that Python's case folding equates with an ASCII letter are not modelled.
\<close>

type_synonym regex = "string list list"

definition to_lower :: "char \<Rightarrow> char" where
  "to_lower c =
     (case map_of (zip ''ABCDEFGHIJKLMNOPQRSTUVWXYZ'' ''abcdefghijklmnopqrstuvwxyz'') c of
        None \<Rightarrow> c
      | Some l \<Rightarrow> l)"

fun match_here :: "string \<Rightarrow> string \<Rightarrow> string option" where
  "match_here [] m = Some m"
| "match_here (c # cs) [] = None"
| "match_here (c # cs) (x # xs) =
     (if to_lower c = to_lower x then match_here cs xs else None)"

fun find_after :: "(string \<Rightarrow> bool) \<Rightarrow> string \<Rightarrow> bool" where
  "find_after P [] = P []"
| "find_after P (c # cs) = (P (c # cs) \<or> (c \<noteq> CHR 0x0A \<and> find_after P cs))"

primrec match_alt_here :: "string list \<Rightarrow> string \<Rightarrow> bool" where
  "match_alt_here [] = (\<lambda>m. True)"
| "match_alt_here (l # ls) =
     (\<lambda>m. case match_here l m of
             None \<Rightarrow> False
           | Some rest \<Rightarrow> (if ls = [] then True else find_after (match_alt_here ls) rest))"

fun search_alt :: "string list \<Rightarrow> string \<Rightarrow> bool" where
  "search_alt a [] = match_alt_here a []"
| "search_alt a (c # cs) = (match_alt_here a (c # cs) \<or> search_alt a cs)"

definition re_search :: "regex \<Rightarrow> string \<Rightarrow> bool" where
  "re_search p m = list_ex (\<lambda>a. search_alt a m) p"

definition known_patterns :: "(error_type \<times> regex) list" where
  "known_patterns =
    [(Indentation, [[''IndentationError''], [''unexpected indent''],
                    [''expected an indented block''], [''unindent does not match'']]),
     (Syntax, [[''SyntaxError''], [''invalid syntax''], [''EOF while scanning''],
               [''unterminated string''], [''unexpected EOF''], [''invalid character'']]),
     (Undefined, [[''NameError''], [''undefined''], [''not defined''],
                  [''name '', '' is not defined'']]),
     (Import, [[''ImportError''], [''ModuleNotFoundError''], [''cannot import''],
               [''No module named'']]),
     (TypeErr, [[''TypeError''], [''AttributeError''], [''object has no attribute''],
                [''takes '', '' positional argument'']]),
     (Logic, [[''IndexError''], [''KeyError''], [''ValueError''],
              [''list index out of range''], [''dictionary key error'']])]"

text \<open>
  The loop of \<^verbatim>\<open>_classify_error\<close> over \<^verbatim>\<open>known_patterns.items()\<close>. Every
  pattern of the table compiles, so the \<^verbatim>\<open>except re.error\<close> branch is never taken.
\<close>

fun classify_loop :: "(error_type \<times> regex) list \<Rightarrow> string \<Rightarrow> error_type" where
  "classify_loop [] m = Unknown"
| "classify_loop ((n, p) # ps) m = (if re_search p m then n else classify_loop ps m)"

text \<open>
  \<^verbatim>\<open>_classify_error\<close>: a falsy message is \<^verbatim>\<open>'unknown'\<close>; a truthy value that is
  not a string makes \<^verbatim>\<open>re.search\<close> raise \<^verbatim>\<open>TypeError\<close>, which the
  \<^verbatim>\<open>except re.error\<close> clause does not catch.
\<close>

definition classify_error :: "pyval \<Rightarrow> exn + error_type" where
  "classify_error v =
     (if \<not> truthy v then Inr Unknown
      else case v of PyStr m \<Rightarrow> Inr (classify_loop known_patterns m) | _ \<Rightarrow> Inl TypeError)"

section \<open>Ingestion\<close>

text \<open>\<^verbatim>\<open>d.get(key, default)\<close>.\<close>

definition dict_get :: "'a option \<Rightarrow> 'a \<Rightarrow> 'a" where
  "dict_get v d = (case v of None \<Rightarrow> d | Some x \<Rightarrow> x)"

text \<open>
  \<^verbatim>\<open>pattern_counters[k] += 1\<close> on the \<^verbatim>\<open>defaultdict(int)\<close>: an existing key keeps
  its place, a new key goes to the end with the value 1.
\<close>

fun counters_incr :: "(error_type \<times> nat) list \<Rightarrow> error_type \<Rightarrow> (error_type \<times> nat) list" where
  "counters_incr [] k = [(k, 1)]"
| "counters_incr ((k', n) # cs) k =
     (if k' = k then (k', n + 1) # cs else (k', n) # counters_incr cs k)"

text \<open>
  \<^verbatim>\<open>add_error\<close> returns nothing; the result is the exception raised, if any, and the
  detector after the call. Both raises come before the first mutation.
\<close>

definition add_error :: "error_info \<Rightarrow> detector \<Rightarrow> exn option \<times> detector" where
  "add_error info d =
     (case info_message info of
        None \<Rightarrow> (Some ValueError, d)
      | Some msg \<Rightarrow>
          (case classify_error msg of
             Inl e \<Rightarrow> (Some e, d)
           | Inr t \<Rightarrow>
               (let error_entry =
                      \<lparr>timestamp = length (error_history d),
                       error_type = t,
                       message = msg,
                       file_name = dict_get (info_file info) [],
                       line = dict_get (info_line info) 0,
                       action = dict_get (info_action info) [],
                       code_snippet = dict_get (info_code_snippet info) [],
                       traceback = dict_get (info_traceback info) []\<rparr>
                in (None,
                    \<lparr>error_history = error_history d @ [error_entry],
                     pattern_counters = counters_incr (pattern_counters d) t\<rparr>))))"

text \<open>\<^verbatim>\<open>reset\<close> clears both containers.\<close>

definition reset :: "detector \<Rightarrow> detector" where
  "reset d = \<lparr>error_history = [], pattern_counters = []\<rparr>"

text \<open>
  \<^verbatim>\<open>create_error_info\<close> builds a dictionary with all six keys.
\<close>

definition create_error_info ::
  "string \<Rightarrow> string \<Rightarrow> int \<Rightarrow> string \<Rightarrow> string \<Rightarrow> string \<Rightarrow> error_info" where
  "create_error_info m f l a c t =
     \<lparr>info_message = Some (PyStr m), info_file = Some f, info_line = Some l,
      info_action = Some a, info_code_snippet = Some c, info_traceback = Some t\<rparr>"

text \<open>
  A caller's sequence of \<^verbatim>\<open>add_error\<close> and \<^verbatim>\<open>reset\<close> calls; an exception of
  \<^verbatim>\<open>add_error\<close> is caught by the caller and the sequence goes on.
\<close>

datatype op = AddError error_info | Reset

fun step :: "detector \<Rightarrow> op \<Rightarrow> detector" where
  "step d (AddError info) = snd (add_error info d)"
| "step d Reset = reset d"

definition run :: "op list \<Rightarrow> detector" where
  "run ops = foldl step init ops"

section \<open>Loop detection\<close>

text \<open>
  The slice \<^verbatim>\<open>xs[-n:]\<close> for an integer \<open>n\<close>: the last \<open>n\<close> elements (all of
  them when the list is shorter) for a positive \<open>n\<close>; \<^verbatim>\<open>xs[-0:]\<close> is \<^verbatim>\<open>xs[0:]\<close>,
  the whole list; for a negative \<open>n\<close> the index \<open>- n\<close> is positive and the slice drops
  that many elements from the front.
\<close>

definition py_last_n :: "int \<Rightarrow> 'a list \<Rightarrow> 'a list" where
  "py_last_n n xs = (if 0 < n then drop (length xs - nat n) xs else drop (nat (- n)) xs)"

text \<open>
  The reason returned with a detected loop. The source formats a string:
  \<^item> \<open>Repetitive t\<close> is \<^verbatim>\<open>f"Repetitive {t} errors detected"\<close>,
  \<^item> \<open>SameLine l\<close> is \<^verbatim>\<open>f"Repeatedly failing at line {l}"\<close>,
  \<^item> \<open>Alternating S\<close> is \<^verbatim>\<open>f"Alternating between {set(error_types)}"\<close>, where the
    order in which Python prints the set is not fixed by the program,
  \<^item> \<open>SameFile f\<close> is \<^verbatim>\<open>f"Multiple errors in same file: {f}"\<close>.
\<close>

datatype loop_reason =
  Repetitive error_type
| SameLine int
| Alternating "error_type set"
| SameFile string

text \<open>\<^verbatim>\<open>_is_alternating\<close>, on the string of the first characters of the types.\<close>

definition is_alternating :: "string \<Rightarrow> bool" where
  "is_alternating pattern =
     (if length pattern < 4 then False
      else list_all (\<lambda>i. pattern ! i \<noteq> pattern ! (i + 1)) [0..<length pattern - 1])"

text \<open>\<^verbatim>\<open>t[0]\<close>, the first character of a type's name; no name is empty.\<close>

definition first_char :: "error_type \<Rightarrow> char" where
  "first_char t = hd (type_name t)"

text \<open>
  \<^verbatim>\<open>detect_loop\<close>. \<^verbatim>\<open>len(set(xs))\<close> is \<open>length (remdups xs)\<close>. Each \<open>hd\<close> stands
  for an index 0 that Python evaluates only after the test that the list is not empty.
\<close>

definition detect_loop :: "int \<Rightarrow> detector \<Rightarrow> bool \<times> loop_reason option" where
  "detect_loop window_size d =
     (if int (length (error_history d)) < window_size then (False, None)
      else
        let recent_errors = py_last_n window_size (error_history d);
            error_types = map error_type recent_errors;
            lines = map line (filter (\<lambda>e. 0 < line e) recent_errors);
            files = map file_name (filter (\<lambda>e. file_name e \<noteq> []) recent_errors)
        in
          if length (remdups error_types) = 1 \<and> hd error_types \<noteq> Unknown
          then (True, Some (Repetitive (hd error_types)))
          else if 3 \<le> length lines \<and> length (remdups lines) = 1
          then (True, Some (SameLine (hd lines)))
          else if length (remdups error_types) = 2
                  \<and> is_alternating (map first_char error_types)
          then (True, Some (Alternating (set error_types)))
          else if length (remdups files) = 1 \<and> 4 \<le> length files
                  \<and> 4 \<le> length (filter (\<lambda>e. file_name e = hd files) recent_errors)
          then (True, Some (SameFile (hd files)))
          else (False, None))"

section \<open>Recovery suggestions\<close>

text \<open>
  Reading \<^verbatim>\<open>pattern_counters[k]\<close>: the \<^verbatim>\<open>defaultdict(int)\<close> returns the stored
  count, and for a key that is not there stores 0 under it, at the end, and returns 0.
\<close>

definition counters_getitem ::
  "(error_type \<times> nat) list \<Rightarrow> error_type \<Rightarrow> nat \<times> (error_type \<times> nat) list" where
  "counters_getitem cs k =
     (case map_of cs k of Some n \<Rightarrow> (n, cs) | None \<Rightarrow> (0, cs @ [(k, 0)]))"










text \<open>\<^verbatim>\<open>should_suggest_alternative_approach\<close>, branch by branch.\<close>

definition should_suggest_alternative_approach :: "detector \<Rightarrow> bool" where
  "should_suggest_alternative_approach d =
     (let h = error_history d in
      if length h < 3 then False
      else if 5 \<le> length h \<and> 4 \<le> length (py_last_n 5 h) then True
      else if 3 \<le> length h
              \<and> length (remdups (map error_type (py_last_n 3 h))) = 1
              \<and> hd (map error_type (py_last_n 3 h)) \<noteq> Unknown then True
      else if 8 \<le> length h then True
      else False)"

section \<open>Statistics\<close>

text \<open>
  \<^verbatim>\<open>_count_recovery_attempts\<close>: the loop over \<open>i = 1, \<dots>, len - 1\<close> looks at each
  entry and the one before it.
\<close>

fun count_recovery_attempts :: "error_entry list \<Rightarrow> nat" where
  "count_recovery_attempts (prev_error # curr_error # rest) =
     (if line curr_error = line prev_error \<and> 0 < line curr_error then 1
      else if file_name curr_error = file_name prev_error \<and> file_name curr_error \<noteq> []
              \<and> 0 < line curr_error \<and> 0 < line prev_error
              \<and> \<bar>line curr_error - line prev_error\<bar> \<le> 10 then 1
      else 0)
     + count_recovery_attempts (curr_error # rest)"
| "count_recovery_attempts _ = 0"

text \<open>
  \<^verbatim>\<open>_count_consecutive_same_type\<close>: the loop walks back from the entry before the last
  one and stops at the first entry of another type.
\<close>

definition count_consecutive_same_type :: "error_entry list \<Rightarrow> nat" where
  "count_consecutive_same_type h =
     (if h = [] then 0
      else 1 + length (takeWhile (\<lambda>e. error_type e = error_type (last h)) (rev (butlast h))))"

text \<open>
  \<^verbatim>\<open>get_error_rate\<close>. The quotient of two small integers, a Python float, is given as
  the exact rational number.
\<close>

definition get_error_rate :: "error_entry list \<Rightarrow> rat" where
  "get_error_rate h = (if h = [] then 0 else of_nat (min (length h) 5) / 5)"

text \<open>
  \<^verbatim>\<open>max(items, key=lambda x: x[1])\<close>: Python's \<^verbatim>\<open>max\<close> keeps the first of the
  greatest elements, replacing its candidate only by a strictly greater one.
\<close>

fun max_item :: "('k \<times> nat) \<Rightarrow> ('k \<times> nat) list \<Rightarrow> 'k \<times> nat" where
  "max_item best [] = best"
| "max_item best (x # xs) = max_item (if snd best < snd x then x else best) xs"

definition most_common_error :: "(error_type \<times> nat) list \<Rightarrow> error_type option" where
  "most_common_error cs = (case cs of [] \<Rightarrow> None | c # rest \<Rightarrow> Some (fst (max_item c rest)))"

text \<open>
  The values of the dictionary that \<^verbatim>\<open>get_statistics\<close> returns, and the dictionary
  itself as the list of its items in the order of the source.
\<close>

datatype stat_value =
  StatInt nat
| StatFloat rat
| StatByType "(error_type \<times> nat) list"
| StatType "error_type option"

definition get_statistics :: "detector \<Rightarrow> (string \<times> stat_value) list" where
  "get_statistics d =
     (let h = error_history d in
      if h = [] then
        [(''total_errors'', StatInt 0),
         (''by_type'', StatByType []),
         (''recent_errors'', StatInt 0),
         (''recovery_attempts'', StatInt 0),
         (''most_common_error'', StatType None),
         (''unique_files_affected'', StatInt 0),
         (''avg_errors_per_file'', StatFloat 0)]
      else
        let unique_files = remdups (filter (\<lambda>f. f \<noteq> []) (map file_name h)) in
        [(''total_errors'', StatInt (length h)),
         (''by_type'', StatByType (pattern_counters d)),
         (''recent_errors'', StatInt (length (py_last_n 5 h))),
         (''recovery_attempts'', StatInt (count_recovery_attempts h)),
         (''most_common_error'', StatType (most_common_error (pattern_counters d))),
         (''unique_files_affected'', StatInt (length unique_files)),
         (''avg_errors_per_file'',
            StatFloat (of_nat (length h) / of_nat (max 1 (length unique_files)))),
         (''error_rate'', StatFloat (get_error_rate h)),
         (''consecutive_same_type'', StatInt (count_consecutive_same_type h))])"

section \<open>Properties of ingestion\<close>

lemma map_of_counters_incr:
  "map_of (counters_incr cs k) =
     (map_of cs)(k \<mapsto> (case map_of cs k of None \<Rightarrow> 1 | Some n \<Rightarrow> n + 1))"
  by (induction cs k rule: counters_incr.induct) (auto simp: fun_eq_iff)

lemma sum_counters_incr:
  "sum_list (map snd (counters_incr cs k)) = sum_list (map snd cs) + 1"
  by (induction cs k rule: counters_incr.induct) auto

lemma fst_counters_getitem:
  "fst (counters_getitem cs k) = (case map_of cs k of None \<Rightarrow> 0 | Some n \<Rightarrow> n)"
  by (simp add: counters_getitem_def split: option.splits)

text \<open>Every string and every falsy value is classified; only \<^verbatim>\<open>TypeError\<close> can be raised.\<close>

lemma classify_error_str: "\<exists>t. classify_error (PyStr m) = Inr t"
  by (simp add: classify_error_def)

lemma classify_error_falsy: "\<not> truthy v \<Longrightarrow> classify_error v = Inr Unknown"
  by (simp add: classify_error_def)

lemma classify_error_Inl: "classify_error v = Inl e \<Longrightarrow> e = TypeError"
  by (auto simp: classify_error_def split: if_splits pyval.splits)

lemma classify_SyntaxError: "classify_error (PyStr ''SyntaxError'') = Inr Syntax"
  by code_simp

text \<open>
  Claim C2. \<^verbatim>\<open>add_error\<close> on a report without the key \<^verbatim>\<open>'message'\<close> raises
  \<^verbatim>\<open>ValueError\<close> and the detector after the call is the detector before it, history and
  counters alike, whatever the detector was.
\<close>

theorem add_error_missing_message:
  "info_message info = None \<Longrightarrow> add_error info d = (Some ValueError, d)"
  by (simp add: add_error_def)

theorem add_error_missing_message_witness:
  "info_message \<lparr>info_message = None, info_file = Some ''a.py'', info_line = Some 3,
       info_action = None, info_code_snippet = None, info_traceback = None\<rparr> = None
   \<and> add_error \<lparr>info_message = None, info_file = Some ''a.py'', info_line = Some 3,
       info_action = None, info_code_snippet = None, info_traceback = None\<rparr>
       \<lparr>error_history = [\<lparr>timestamp = 0, error_type = Syntax, message = PyStr ''SyntaxError'',
            file_name = ''a.py'', line = 3, action = [], code_snippet = [], traceback = []\<rparr>],
        pattern_counters = [(Syntax, 1)]\<rparr>
     = (Some ValueError,
        \<lparr>error_history = [\<lparr>timestamp = 0, error_type = Syntax, message = PyStr ''SyntaxError'',
            file_name = ''a.py'', line = 3, action = [], code_snippet = [], traceback = []\<rparr>],
        pattern_counters = [(Syntax, 1)]\<rparr>)"
  using add_error_missing_message [of
       "\<lparr>info_message = None, info_file = Some ''a.py'', info_line = Some 3,
         info_action = None, info_code_snippet = None, info_traceback = None\<rparr>"
       "\<lparr>error_history = [\<lparr>timestamp = 0, error_type = Syntax, message = PyStr ''SyntaxError'',
            file_name = ''a.py'', line = 3, action = [], code_snippet = [], traceback = []\<rparr>],
        pattern_counters = [(Syntax, 1)]\<rparr>"]
  by simp

text \<open>
  A truthy message that is not a string is the one case in which the classifier raises:
  \<^verbatim>\<open>add_error\<close> then raises \<^verbatim>\<open>TypeError\<close> before it appends anything.
\<close>

lemma classify_error_Inr_iff:
  "(\<exists>t. classify_error msg = Inr t) \<longleftrightarrow> ((\<exists>s. msg = PyStr s) \<or> \<not> truthy msg)"
  by (cases msg) (auto simp: classify_error_def)

lemma add_error_non_string_message:
  assumes "info_message info = Some msg" and "truthy msg" and "\<forall>s. msg \<noteq> PyStr s"
  shows "add_error info d = (Some TypeError, d)"
  using assms by (cases msg) (auto simp: add_error_def classify_error_def)

text \<open>
  Claim C3, as stated for every report that has the key \<^verbatim>\<open>'message'\<close>, fails for a
  report whose message is the integer 42: \<^verbatim>\<open>add_error\<close> raises \<^verbatim>\<open>TypeError\<close>, the
  detector is unchanged and the history has not grown.
\<close>

theorem add_error_non_string_counterexample:
  "info_message \<lparr>info_message = Some (PyInt 42), info_file = None, info_line = None,
       info_action = None, info_code_snippet = None, info_traceback = None\<rparr> = Some (PyInt 42)
   \<and> add_error \<lparr>info_message = Some (PyInt 42), info_file = None, info_line = None,
       info_action = None, info_code_snippet = None, info_traceback = None\<rparr> init
       = (Some TypeError, init)
   \<and> length (error_history (snd (add_error
       \<lparr>info_message = Some (PyInt 42), info_file = None, info_line = None,
        info_action = None, info_code_snippet = None, info_traceback = None\<rparr> init)))
       \<noteq> length (error_history init) + 1"
  by (simp add: add_error_def classify_error_def init_def)

text \<open>
  Claim C3, amended. For a report that has the key \<^verbatim>\<open>'message'\<close> and whose message is
  a string or a falsy value, the classifier gives the message a type \<open>t\<close>,
  \<^verbatim>\<open>add_error\<close> returns normally, the history is the old one with one entry appended,
  the counter of \<open>t\<close> grows by one, the counter of every other type is as before, and
  the new entry carries the old length of the history as its sequence index and \<open>t\<close> as
  its type.
\<close>

theorem add_error_appends:
  assumes "info_message info = Some msg" and "(\<exists>s. msg = PyStr s) \<or> \<not> truthy msg"
  shows "\<exists>t. classify_error msg = Inr t
       \<and> fst (add_error info d) = None
       \<and> length (error_history (snd (add_error info d))) = length (error_history d) + 1
       \<and> fst (counters_getitem (pattern_counters (snd (add_error info d))) t)
           = fst (counters_getitem (pattern_counters d) t) + 1
       \<and> (\<forall>t'. t' \<noteq> t \<longrightarrow>
             map_of (pattern_counters (snd (add_error info d))) t' = map_of (pattern_counters d) t')
       \<and> butlast (error_history (snd (add_error info d))) = error_history d
       \<and> timestamp (last (error_history (snd (add_error info d)))) = length (error_history d)
       \<and> error_type (last (error_history (snd (add_error info d)))) = t"
proof -
  obtain t where t: "classify_error msg = Inr t"
    using assms(2) classify_error_Inr_iff [of msg] by blast
  have "fst (add_error info d) = None
       \<and> length (error_history (snd (add_error info d))) = length (error_history d) + 1
       \<and> fst (counters_getitem (pattern_counters (snd (add_error info d))) t)
           = fst (counters_getitem (pattern_counters d) t) + 1
       \<and> (\<forall>t'. t' \<noteq> t \<longrightarrow>
             map_of (pattern_counters (snd (add_error info d))) t' = map_of (pattern_counters d) t')
       \<and> butlast (error_history (snd (add_error info d))) = error_history d
       \<and> timestamp (last (error_history (snd (add_error info d)))) = length (error_history d)
       \<and> error_type (last (error_history (snd (add_error info d)))) = t"
    using assms(1) t
    by (simp add: add_error_def Let_def fst_counters_getitem map_of_counters_incr
             split: option.splits)
  then show ?thesis using t by blast
qed

theorem add_error_appends_witness:
  "info_message (create_error_info ''SyntaxError'' ''a.py'' 3 [] [] []) = Some (PyStr ''SyntaxError'')
   \<and> classify_error (PyStr ''SyntaxError'') = Inr Syntax
   \<and> fst (add_error (create_error_info ''SyntaxError'' ''a.py'' 3 [] [] []) init) = None
   \<and> length (error_history
        (snd (add_error (create_error_info ''SyntaxError'' ''a.py'' 3 [] [] []) init))) = 1
   \<and> fst (counters_getitem (pattern_counters
        (snd (add_error (create_error_info ''SyntaxError'' ''a.py'' 3 [] [] []) init))) Syntax) = 1
   \<and> timestamp (last (error_history
        (snd (add_error (create_error_info ''SyntaxError'' ''a.py'' 3 [] [] []) init)))) = 0"
  using add_error_appends [of "create_error_info ''SyntaxError'' ''a.py'' 3 [] [] []"
      "PyStr ''SyntaxError''" init] classify_SyntaxError
  by (auto simp: create_error_info_def init_def fst_counters_getitem)

text \<open>
  Claim C10. When the key \<^verbatim>\<open>'message'\<close> is present and its value is falsy
  (\<^verbatim>\<open>None\<close>, the empty string, \<^verbatim>\<open>0\<close>, \<^verbatim>\<open>False\<close>), \<^verbatim>\<open>add_error\<close> raises
  nothing and appends one entry of type \<^verbatim>\<open>'unknown'\<close>; and \<^verbatim>\<open>ValueError\<close> is raised
  exactly when the key is absent.
\<close>

theorem add_error_falsy_message:
  "(info_message info = Some v \<and> \<not> truthy v \<longrightarrow>
      fst (add_error info d) = None
      \<and> butlast (error_history (snd (add_error info d))) = error_history d
      \<and> length (error_history (snd (add_error info d))) = length (error_history d) + 1
      \<and> error_type (last (error_history (snd (add_error info d)))) = Unknown)
   \<and> (fst (add_error info d) = Some ValueError \<longleftrightarrow> info_message info = None)"
proof -
  have a: "fst (add_error info d) = None
       \<and> butlast (error_history (snd (add_error info d))) = error_history d
       \<and> length (error_history (snd (add_error info d))) = length (error_history d) + 1
       \<and> error_type (last (error_history (snd (add_error info d)))) = Unknown"
    if "info_message info = Some v" and "\<not> truthy v"
    using that classify_error_falsy [of v] by (simp add: add_error_def Let_def)
  have b: "fst (add_error info d) = Some ValueError \<longleftrightarrow> info_message info = None"
    by (auto simp: add_error_def Let_def split: option.splits sum.splits
             dest: classify_error_Inl)
  show ?thesis using a b by blast
qed

theorem add_error_falsy_message_witness:
  "info_message \<lparr>info_message = Some PyNone, info_file = None, info_line = None,
       info_action = None, info_code_snippet = None, info_traceback = None\<rparr> = Some PyNone
   \<and> \<not> truthy PyNone
   \<and> fst (add_error \<lparr>info_message = Some PyNone, info_file = None, info_line = None,
       info_action = None, info_code_snippet = None, info_traceback = None\<rparr> init) = None
   \<and> map error_type (error_history (snd (add_error
       \<lparr>info_message = Some PyNone, info_file = None, info_line = None,
        info_action = None, info_code_snippet = None, info_traceback = None\<rparr> init))) = [Unknown]"
  using add_error_falsy_message [of
       "\<lparr>info_message = Some PyNone, info_file = None, info_line = None,
         info_action = None, info_code_snippet = None, info_traceback = None\<rparr>" PyNone init]
  by (simp add: add_error_def classify_error_def init_def)

section \<open>State invariants\<close>

lemma add_error_history:
  "error_history (snd (add_error info d)) = error_history d
   \<or> (\<exists>e. timestamp e = length (error_history d)
          \<and> error_history (snd (add_error info d)) = error_history d @ [e])"
  by (auto simp: add_error_def Let_def split: option.splits sum.splits)

lemma add_error_timestamps:
  assumes "\<forall>i<length (error_history d). timestamp (error_history d ! i) = i"
  shows "\<forall>i<length (error_history (snd (add_error info d))).
           timestamp (error_history (snd (add_error info d)) ! i) = i"
  using add_error_history [of info d] assms
  by (auto simp: nth_append)

lemma add_error_sum:
  assumes "sum_list (map snd (pattern_counters d)) = length (error_history d)"
  shows "sum_list (map snd (pattern_counters (snd (add_error info d))))
           = length (error_history (snd (add_error info d)))"
  using assms
  by (auto simp: add_error_def Let_def sum_counters_incr split: option.splits sum.splits)

lemma step_invariants:
  assumes "(\<forall>i<length (error_history d). timestamp (error_history d ! i) = i)
           \<and> sum_list (map snd (pattern_counters d)) = length (error_history d)"
  shows "(\<forall>i<length (error_history (step d x)). timestamp (error_history (step d x) ! i) = i)
           \<and> sum_list (map snd (pattern_counters (step d x))) = length (error_history (step d x))"
proof (cases x)
  case (AddError info)
  then show ?thesis
    using assms add_error_timestamps [of d info] add_error_sum [of d info] by simp
next
  case Reset
  then show ?thesis by (simp add: reset_def)
qed

lemma foldl_step_invariants:
  "(\<forall>i<length (error_history d). timestamp (error_history d ! i) = i)
     \<and> sum_list (map snd (pattern_counters d)) = length (error_history d)
   \<Longrightarrow> (\<forall>i<length (error_history (foldl step d ops)).
           timestamp (error_history (foldl step d ops) ! i) = i)
     \<and> sum_list (map snd (pattern_counters (foldl step d ops)))
         = length (error_history (foldl step d ops))"
proof (induction ops arbitrary: d)
  case Nil
  then show ?case by simp
next
  case (Cons x ops)
  show ?case
    using Cons.IH [OF step_invariants [OF Cons.prems, of x]] by simp
qed

text \<open>
  Claim C4. After every sequence of \<^verbatim>\<open>add_error\<close> and \<^verbatim>\<open>reset\<close> calls on a fresh
  detector, the entry at index \<open>i\<close> of the history has sequence index \<open>i\<close>, and the counts
  add up to the length of the history.
\<close>

theorem run_invariants:
  "(\<forall>i<length (error_history (run ops)). timestamp (error_history (run ops) ! i) = i)
   \<and> sum_list (map snd (pattern_counters (run ops))) = length (error_history (run ops))"
  unfolding run_def by (rule foldl_step_invariants) (simp add: init_def)

lemma run_example:
  "run [AddError (create_error_info ''SyntaxError'' ''a.py'' 3 [] [] []),
        Reset,
        AddError \<lparr>info_message = None, info_file = None, info_line = None,
                  info_action = None, info_code_snippet = None, info_traceback = None\<rparr>,
        AddError (create_error_info ''ImportError'' ''a.py'' 4 [] [] []),
        AddError (create_error_info ''SyntaxError'' ''b.py'' 0 [] [] [])]
   = \<lparr>error_history =
        [\<lparr>timestamp = 0, error_type = Import, message = PyStr ''ImportError'',
          file_name = ''a.py'', line = 4, action = [], code_snippet = [], traceback = []\<rparr>,
         \<lparr>timestamp = 1, error_type = Syntax, message = PyStr ''SyntaxError'',
          file_name = ''b.py'', line = 0, action = [], code_snippet = [], traceback = []\<rparr>],
      pattern_counters = [(Import, 1), (Syntax, 1)]\<rparr>"
  by code_simp

theorem run_invariants_witness:
  "length (error_history (run
       [AddError (create_error_info ''SyntaxError'' ''a.py'' 3 [] [] []),
        Reset,
        AddError \<lparr>info_message = None, info_file = None, info_line = None,
                  info_action = None, info_code_snippet = None, info_traceback = None\<rparr>,
        AddError (create_error_info ''ImportError'' ''a.py'' 4 [] [] []),
        AddError (create_error_info ''SyntaxError'' ''b.py'' 0 [] [] [])])) = 2
   \<and> timestamp (error_history (run
       [AddError (create_error_info ''SyntaxError'' ''a.py'' 3 [] [] []),
        Reset,
        AddError \<lparr>info_message = None, info_file = None, info_line = None,
                  info_action = None, info_code_snippet = None, info_traceback = None\<rparr>,
        AddError (create_error_info ''ImportError'' ''a.py'' 4 [] [] []),
        AddError (create_error_info ''SyntaxError'' ''b.py'' 0 [] [] [])]) ! 1) = 1
   \<and> sum_list (map snd (pattern_counters (run
       [AddError (create_error_info ''SyntaxError'' ''a.py'' 3 [] [] []),
        Reset,
        AddError \<lparr>info_message = None, info_file = None, info_line = None,
                  info_action = None, info_code_snippet = None, info_traceback = None\<rparr>,
        AddError (create_error_info ''ImportError'' ''a.py'' 4 [] [] []),
        AddError (create_error_info ''SyntaxError'' ''b.py'' 0 [] [] [])]))) = 2"
  using run_invariants [of
       "[AddError (create_error_info ''SyntaxError'' ''a.py'' 3 [] [] []),
        Reset,
        AddError \<lparr>info_message = None, info_file = None, info_line = None,
                  info_action = None, info_code_snippet = None, info_traceback = None\<rparr>,
        AddError (create_error_info ''ImportError'' ''a.py'' 4 [] [] []),
        AddError (create_error_info ''SyntaxError'' ''b.py'' 0 [] [] [])]"]
  unfolding run_example by simp

section \<open>Properties of loop detection\<close>

lemma remdups_uniform:
  "xs \<noteq> [] \<Longrightarrow> \<forall>x\<in>set xs. x = t \<Longrightarrow> remdups xs = [t]"
proof (induction xs)
  case Nil
  then show ?case by simp
next
  case (Cons a xs)
  have a: "a = t" using Cons.prems(2) by simp
  show ?case
  proof (cases "xs = []")
    case True
    then show ?thesis using a by simp
  next
    case False
    have r: "remdups xs = [t]"
      using Cons.IH [OF False] Cons.prems(2) by simp
    have "set (remdups xs) = {t}" unfolding r by simp
    then have "t \<in> set xs" by simp
    then show ?thesis using a r by simp
  qed
qed

lemma remdups_singleton_uniform:
  assumes "remdups xs = [t]"
  shows "\<forall>x\<in>set xs. x = t"
proof -
  have "set xs = set (remdups xs)" by simp
  also have "\<dots> = {t}" unfolding assms by simp
  finally show ?thesis by blast
qed

lemma length_remdups_one:
  assumes "length (remdups xs) = 1"
  shows "remdups xs = [hd xs]"
proof -
  obtain a where a: "remdups xs = [a]"
    using assms by (cases "remdups xs") auto
  have ne: "xs \<noteq> []" using a by auto
  have "\<forall>x\<in>set xs. x = a" using a by (rule remdups_singleton_uniform)
  moreover have "hd xs \<in> set xs" using ne by simp
  ultimately have "hd xs = a" by blast
  then show ?thesis using a by simp
qed


text \<open>
  Claim C5. \<^verbatim>\<open>detect_loop\<close> returns \<^verbatim>\<open>(False, None)\<close> when the history is shorter
  than the window size. When the history holds at least \<open>w\<close> entries, \<open>w\<close> positive, and
  the last \<open>w\<close> entries all have the type \<open>t\<close>, which is not \<^verbatim>\<open>'unknown'\<close>, it
  returns \<^verbatim>\<open>True\<close> with the reason that names \<open>t\<close>, whatever the files and lines of
  the entries are.
\<close>

theorem detect_loop_uniform:
  "(int (length (error_history d)) < w \<longrightarrow> detect_loop w d = (False, None))
   \<and> (0 < w \<and> w \<le> int (length (error_history d))
        \<and> (\<forall>e\<in>set (drop (length (error_history d) - nat w) (error_history d)). error_type e = t)
        \<and> t \<noteq> Unknown
      \<longrightarrow> detect_loop w d = (True, Some (Repetitive t)))"
proof -
  have a: "detect_loop w d = (False, None)" if "int (length (error_history d)) < w"
    using that by (simp add: detect_loop_def)
  have b: "detect_loop w d = (True, Some (Repetitive t))"
    if w: "0 < w" "w \<le> int (length (error_history d))"
      and u: "\<forall>e\<in>set (drop (length (error_history d) - nat w) (error_history d)). error_type e = t"
      and t: "t \<noteq> Unknown"
  proof -
    define win where "win = py_last_n w (error_history d)"
    have win: "win = drop (length (error_history d) - nat w) (error_history d)"
      using w(1) by (simp add: win_def py_last_n_def)
    have "length win = nat w" unfolding win using w by simp
    then have ne: "map error_type win \<noteq> []" using w(1) by auto
    have "\<forall>x\<in>set (map error_type win). x = t" using u unfolding win by simp
    from remdups_uniform [OF ne this]
    have r: "remdups (map error_type win) = [t]" .
    have h: "hd (map error_type win) = t"
      using length_remdups_one [of "map error_type win"] r by simp
    have c: "\<not> int (length (error_history d)) < w" using w(2) by simp
    show ?thesis
      unfolding detect_loop_def Let_def win_def [symmetric]
      by (simp only: c r h t if_False if_True list.size One_nat_def add_0 simp_thms)
  qed
  show ?thesis using a b by blast
qed


theorem detect_loop_uniform_witness:
  "(0::int) < 5
   \<and> detect_loop 5
        \<lparr>error_history = map (\<lambda>i. \<lparr>timestamp = i, error_type = Syntax,
            message = PyStr ''SyntaxError'', file_name = ''a.py'', line = int i + 1,
            action = [], code_snippet = [], traceback = []\<rparr>) [0, 1, 2, 3, 4],
         pattern_counters = [(Syntax, 5)]\<rparr>
       = (True, Some (Repetitive Syntax))
   \<and> detect_loop 6
        \<lparr>error_history = map (\<lambda>i. \<lparr>timestamp = i, error_type = Syntax,
            message = PyStr ''SyntaxError'', file_name = ''a.py'', line = int i + 1,
            action = [], code_snippet = [], traceback = []\<rparr>) [0, 1, 2, 3, 4],
         pattern_counters = [(Syntax, 5)]\<rparr>
       = (False, None)"
  using detect_loop_uniform [of
        "\<lparr>error_history = map (\<lambda>i. \<lparr>timestamp = i, error_type = Syntax,
            message = PyStr ''SyntaxError'', file_name = ''a.py'', line = int i + 1,
            action = [], code_snippet = [], traceback = []\<rparr>) [0, 1, 2, 3, 4],
         pattern_counters = [(Syntax, 5)]\<rparr>" 5 Syntax]
      detect_loop_uniform [of
        "\<lparr>error_history = map (\<lambda>i. \<lparr>timestamp = i, error_type = Syntax,
            message = PyStr ''SyntaxError'', file_name = ''a.py'', line = int i + 1,
            action = [], code_snippet = [], traceback = []\<rparr>) [0, 1, 2, 3, 4],
         pattern_counters = [(Syntax, 5)]\<rparr>" 6 Syntax]
  by simp

section \<open>Properties of the alternative-approach test\<close>

lemma uniform_iff:
  assumes "tys \<noteq> []"
  shows "(length (remdups tys) = 1 \<and> hd tys \<noteq> u) = (\<exists>t. t \<noteq> u \<and> (\<forall>x\<in>set tys. x = t))"
proof
  assume l: "length (remdups tys) = 1 \<and> hd tys \<noteq> u"
  then have "remdups tys = [hd tys]" by (simp add: length_remdups_one)
  then have "\<forall>x\<in>set tys. x = hd tys" by (rule remdups_singleton_uniform)
  then show "\<exists>t. t \<noteq> u \<and> (\<forall>x\<in>set tys. x = t)" using l by blast
next
  assume "\<exists>t. t \<noteq> u \<and> (\<forall>x\<in>set tys. x = t)"
  then obtain t where t: "t \<noteq> u" "\<forall>x\<in>set tys. x = t" by blast
  have r: "remdups tys = [t]" using assms t(2) by (rule remdups_uniform)
  have "hd tys \<in> set tys" using assms by simp
  then have "hd tys = t" using t(2) by blast
  then show "length (remdups tys) = 1 \<and> hd tys \<noteq> u" using r t(1) by simp
qed

text \<open>
  Claim C8. \<^verbatim>\<open>should_suggest_alternative_approach\<close> is true exactly when the history
  has at least 5 entries, or has at least 3 entries and its last 3 entries share one type
  that is not \<^verbatim>\<open>'unknown'\<close>. So it is true for every history of length at least 5 and
  false for every history shorter than 3.
\<close>

theorem should_suggest_alternative_approach_iff:
  "should_suggest_alternative_approach d =
     (5 \<le> length (error_history d)
      \<or> (3 \<le> length (error_history d)
          \<and> (\<exists>t. t \<noteq> Unknown
                \<and> (\<forall>e\<in>set (drop (length (error_history d) - 3) (error_history d)).
                      error_type e = t))))"
proof -
  define h where "h = error_history d"
  consider "length h < 3" | "5 \<le> length h" | "3 \<le> length h" "length h < 5" by linarith
  then have "should_suggest_alternative_approach d =
     (5 \<le> length h
      \<or> (3 \<le> length h
          \<and> (\<exists>t. t \<noteq> Unknown \<and> (\<forall>e\<in>set (drop (length h - 3) h). error_type e = t))))"
  proof cases
    case 1
    then show ?thesis
      by (simp add: should_suggest_alternative_approach_def h_def [symmetric])
  next
    case 2
    then have "length (py_last_n 5 h) = 5" by (simp add: py_last_n_def)
    then show ?thesis using 2
      by (simp add: should_suggest_alternative_approach_def h_def [symmetric])
  next
    case 3
    define tys where "tys = map error_type (py_last_n 3 h)"
    have win: "py_last_n 3 h = drop (length h - 3) h" by (simp add: py_last_n_def)
    have "length tys = 3" unfolding tys_def win using 3(1) by simp
    then have ne: "tys \<noteq> []" by auto
    have e: "(\<exists>t. t \<noteq> Unknown \<and> (\<forall>x\<in>set tys. x = t))
          = (\<exists>t. t \<noteq> Unknown \<and> (\<forall>e\<in>set (drop (length h - 3) h). error_type e = t))"
      unfolding tys_def win by simp
    have s: "should_suggest_alternative_approach d
          = (length (remdups tys) = 1 \<and> hd tys \<noteq> Unknown)"
      using 3
      by (simp add: should_suggest_alternative_approach_def h_def [symmetric]
            tys_def [symmetric])
    show ?thesis
      unfolding s uniform_iff [OF ne] e using 3 by simp
  qed
  then show ?thesis unfolding h_def .
qed

theorem should_suggest_alternative_approach_iff_witness:
  "should_suggest_alternative_approach
        \<lparr>error_history = map (\<lambda>i. \<lparr>timestamp = i, error_type = Syntax,
            message = PyStr ''SyntaxError'', file_name = ''a.py'', line = int i + 1,
            action = [], code_snippet = [], traceback = []\<rparr>) [0, 1, 2],
         pattern_counters = [(Syntax, 3)]\<rparr>
   \<and> \<not> should_suggest_alternative_approach
        \<lparr>error_history = map (\<lambda>i. \<lparr>timestamp = i, error_type = Unknown,
            message = PyStr ''Error'', file_name = ''a.py'', line = int i + 1,
            action = [], code_snippet = [], traceback = []\<rparr>) [0, 1, 2, 3],
         pattern_counters = [(Unknown, 4)]\<rparr>"
  using should_suggest_alternative_approach_iff [of
        "\<lparr>error_history = map (\<lambda>i. \<lparr>timestamp = i, error_type = Syntax,
            message = PyStr ''SyntaxError'', file_name = ''a.py'', line = int i + 1,
            action = [], code_snippet = [], traceback = []\<rparr>) [0, 1, 2],
         pattern_counters = [(Syntax, 3)]\<rparr>"]
      should_suggest_alternative_approach_iff [of
        "\<lparr>error_history = map (\<lambda>i. \<lparr>timestamp = i, error_type = Unknown,
            message = PyStr ''Error'', file_name = ''a.py'', line = int i + 1,
            action = [], code_snippet = [], traceback = []\<rparr>) [0, 1, 2, 3],
         pattern_counters = [(Unknown, 4)]\<rparr>"]
  by simp

section \<open>Alternation between two types\<close>

lemma run_indentation_import:
  "run [AddError (create_error_info ''IndentationError'' [] 0 [] [] []),
        AddError (create_error_info ''ImportError'' [] 0 [] [] []),
        AddError (create_error_info ''IndentationError'' [] 0 [] [] []),
        AddError (create_error_info ''ImportError'' [] 0 [] [] []),
        AddError (create_error_info ''IndentationError'' [] 0 [] [] [])]
   = \<lparr>error_history =
        [\<lparr>timestamp = 0, error_type = Indentation, message = PyStr ''IndentationError'',
          file_name = [], line = 0, action = [], code_snippet = [], traceback = []\<rparr>,
         \<lparr>timestamp = 1, error_type = Import, message = PyStr ''ImportError'',
          file_name = [], line = 0, action = [], code_snippet = [], traceback = []\<rparr>,
         \<lparr>timestamp = 2, error_type = Indentation, message = PyStr ''IndentationError'',
          file_name = [], line = 0, action = [], code_snippet = [], traceback = []\<rparr>,
         \<lparr>timestamp = 3, error_type = Import, message = PyStr ''ImportError'',
          file_name = [], line = 0, action = [], code_snippet = [], traceback = []\<rparr>,
         \<lparr>timestamp = 4, error_type = Indentation, message = PyStr ''IndentationError'',
          file_name = [], line = 0, action = [], code_snippet = [], traceback = []\<rparr>],
      pattern_counters = [(Indentation, 3), (Import, 2)]\<rparr>"
  by code_simp

text \<open>
  Claim C1. The claim says that a window of at least 5 entries holding exactly two types in
  strict alternation is reported as a loop for every pair of types, \<^verbatim>\<open>'indentation'\<close>
  and \<^verbatim>\<open>'import'\<close> included. The code compares the first characters of the type
  names, and these two names both start with \<^verbatim>\<open>i\<close>: after five calls of
  \<^verbatim>\<open>add_error\<close> with alternating \<^verbatim>\<open>IndentationError\<close> and \<^verbatim>\<open>ImportError\<close>
  messages, no file and no line, the types of the history alternate and
  \<^verbatim>\<open>detect_loop(5)\<close> returns \<^verbatim>\<open>(False, None)\<close>.
\<close>

theorem detect_loop_indentation_import:
  "map error_type (error_history (run
       [AddError (create_error_info ''IndentationError'' [] 0 [] [] []),
        AddError (create_error_info ''ImportError'' [] 0 [] [] []),
        AddError (create_error_info ''IndentationError'' [] 0 [] [] []),
        AddError (create_error_info ''ImportError'' [] 0 [] [] []),
        AddError (create_error_info ''IndentationError'' [] 0 [] [] [])]))
     = [Indentation, Import, Indentation, Import, Indentation]
   \<and> detect_loop 5 (run
       [AddError (create_error_info ''IndentationError'' [] 0 [] [] []),
        AddError (create_error_info ''ImportError'' [] 0 [] [] []),
        AddError (create_error_info ''IndentationError'' [] 0 [] [] []),
        AddError (create_error_info ''ImportError'' [] 0 [] [] []),
        AddError (create_error_info ''IndentationError'' [] 0 [] [] [])])
     = (False, None)"
  unfolding run_indentation_import
  by (simp add: detect_loop_def py_last_n_def is_alternating_def first_char_def)

lemma two_types_remdups:
  assumes "set tys = {a, b}" and "a \<noteq> b"
  shows "length (remdups tys) = 2"
proof -
  have "card {a, b} = 2" using assms(2) by simp
  then have "card (set tys) = 2" unfolding assms(1) .
  then show ?thesis by (simp only: length_remdups_card_conv)
qed

lemma is_alternating_first_chars:
  assumes len: "4 \<le> length tys"
    and two: "set tys = {a, b}"
    and alt: "\<forall>i. i + 1 < length tys \<longrightarrow> tys ! i \<noteq> tys ! (i + 1)"
    and chars: "first_char a \<noteq> first_char b"
  shows "is_alternating (map first_char tys)"
proof -
  have step: "first_char (tys ! i) \<noteq> first_char (tys ! (i + 1))" if i: "i + 1 < length tys" for i
  proof -
    have "tys ! i \<in> set tys" using i by simp
    then have x: "tys ! i = a \<or> tys ! i = b" unfolding two by blast
    have "tys ! (i + 1) \<in> set tys" using i by simp
    then have y: "tys ! (i + 1) = a \<or> tys ! (i + 1) = b" unfolding two by blast
    have z: "tys ! i \<noteq> tys ! (i + 1)" using alt i by blast
    show ?thesis using x y z chars by metis
  qed
  have "\<forall>i\<in>set [0..<length tys - 1]. map first_char tys ! i \<noteq> map first_char tys ! (i + 1)"
  proof
    fix i assume "i \<in> set [0..<length tys - 1]"
    then have i: "i + 1 < length tys" by simp
    then have "map first_char tys ! i = first_char (tys ! i)"
      "map first_char tys ! (i + 1) = first_char (tys ! (i + 1))" by simp_all
    then show "map first_char tys ! i \<noteq> map first_char tys ! (i + 1)"
      using step [OF i] by simp
  qed
  then have "list_all (\<lambda>i. map first_char tys ! i \<noteq> map first_char tys ! (i + 1))
          [0..<length (map first_char tys) - 1]"
    by (simp only: list_all_iff length_map)
  then show ?thesis using len by (simp add: is_alternating_def)
qed


text \<open>
  For two types whose names start with different characters the alternation rule does
  fire, when the same-line rule does not.
\<close>

lemma detect_loop_alternating:
  assumes w: "5 \<le> w" "w \<le> int (length (error_history d))"
    and tys: "tys = map error_type (drop (length (error_history d) - nat w) (error_history d))"
    and two: "set tys = {a, b}" "a \<noteq> b"
    and alt: "\<forall>i. i + 1 < length tys \<longrightarrow> tys ! i \<noteq> tys ! (i + 1)"
    and chars: "first_char a \<noteq> first_char b"
    and lines: "\<not> (3 \<le> length (map line (filter (\<lambda>e. 0 < line e)
                        (drop (length (error_history d) - nat w) (error_history d))))
                 \<and> length (remdups (map line (filter (\<lambda>e. 0 < line e)
                        (drop (length (error_history d) - nat w) (error_history d))))) = 1)"
  shows "detect_loop w d = (True, Some (Alternating {a, b}))"
proof -
  have win: "py_last_n w (error_history d)
               = drop (length (error_history d) - nat w) (error_history d)"
    using w(1) by (simp add: py_last_n_def)
  have "length tys = nat w" unfolding tys using w by simp
  then have len: "4 \<le> length tys" using w(1) by simp
  have r: "length (remdups tys) = 2" using two by (rule two_types_remdups)
  have r1: "\<not> (length (remdups tys) = 1 \<and> hd tys \<noteq> Unknown)" using r by simp
  have al: "is_alternating (map first_char tys)"
    using len two(1) alt chars by (rule is_alternating_first_chars)
  have c: "\<not> int (length (error_history d)) < w" using w(2) by simp
  show ?thesis
    unfolding detect_loop_def Let_def win tys [symmetric]
    by (simp only: c lines r al two(1) if_False if_True simp_thms) simp
qed

section \<open>Properties of the statistics\<close>

lemma get_statistics_empty_keys:
  "map fst (get_statistics init)
     = [''total_errors'', ''by_type'', ''recent_errors'', ''recovery_attempts'',
        ''most_common_error'', ''unique_files_affected'', ''avg_errors_per_file'']"
  by (simp add: get_statistics_def init_def)

text \<open>
  Claim C6. The claim says that the dictionary returned for the empty history has every
  key of the non-empty case, \<^verbatim>\<open>error_rate\<close> and \<^verbatim>\<open>consecutive_same_type\<close> among
  them. The dictionary built for the empty history has seven keys and these two are not
  among them, while the dictionary built after one \<^verbatim>\<open>add_error\<close> has both.
\<close>

theorem get_statistics_empty_missing_keys:
  "map_of (get_statistics init) ''error_rate'' = None
   \<and> map_of (get_statistics init) ''consecutive_same_type'' = None
   \<and> map_of (get_statistics init) ''total_errors'' = Some (StatInt 0)
   \<and> map_of (get_statistics (snd (add_error (create_error_info ''SyntaxError'' [] 0 [] [] []) init)))
        ''error_rate'' = Some (StatFloat (1 / 5))
   \<and> map_of (get_statistics (snd (add_error (create_error_info ''SyntaxError'' [] 0 [] [] []) init)))
        ''consecutive_same_type'' = Some (StatInt 1)"
  using classify_SyntaxError
  by (simp add: get_statistics_def init_def add_error_def create_error_info_def
        get_error_rate_def count_consecutive_same_type_def)

lemma get_statistics_nonempty_keys:
  "error_history d \<noteq> [] \<Longrightarrow>
     map_of (get_statistics d) ''error_rate'' = Some (StatFloat (get_error_rate (error_history d)))
     \<and> map_of (get_statistics d) ''consecutive_same_type''
         = Some (StatInt (count_consecutive_same_type (error_history d)))"
  by (simp add: get_statistics_def Let_def)

lemma keys_counters_incr:
  "map fst (counters_incr cs k) = (if k \<in> set (map fst cs) then map fst cs else map fst cs @ [k])"
  by (induction cs k rule: counters_incr.induct) auto

lemma map_of_count_types:
  "map_of (foldl counters_incr [] tys) t
     = (if t \<in> set tys then Some (count_list tys t) else None)"
proof (induction tys arbitrary: t rule: rev_induct)
  case Nil
  then show ?case by simp
next
  case (snoc x xs)
  show ?case
    using snoc.IH [of t] snoc.IH [of x]
    by (auto simp: map_of_counters_incr split: option.splits)
qed

lemma set_keys_count_types:
  "set (map fst (foldl counters_incr [] tys)) = set tys"
proof -
  have "dom (map_of (foldl counters_incr [] tys)) = set tys"
    by (auto simp: map_of_count_types dom_def split: if_splits)
  then show ?thesis by (simp add: dom_map_of_conv_image_fst)
qed

lemma distinct_keys_count_types:
  "distinct (map fst (foldl counters_incr [] tys))"
proof (induction tys rule: rev_induct)
  case Nil
  then show ?case by simp
next
  case (snoc x xs)
  then show ?case by (simp add: keys_counters_incr)
qed

lemma max_item_split:
  "\<exists>pre post. best # xs = pre @ max_item best xs # post
      \<and> (\<forall>x\<in>set pre. snd x < snd (max_item best xs))
      \<and> (\<forall>x\<in>set post. snd x \<le> snd (max_item best xs))"
proof (induction xs arbitrary: best)
  case Nil
  have "[best] = [] @ max_item best [] # []
      \<and> (\<forall>x\<in>set []. snd x < snd (max_item best []))
      \<and> (\<forall>x\<in>set []. snd x \<le> snd (max_item best []))" by simp
  then show ?case by blast
next
  case (Cons x xs)
  show ?case
  proof (cases "snd best < snd x")
    case True
    obtain pre post where s: "x # xs = pre @ max_item x xs # post"
      and p: "\<forall>y\<in>set pre. snd y < snd (max_item x xs)"
      and q: "\<forall>y\<in>set post. snd y \<le> snd (max_item x xs)"
      using Cons.IH [of x] by blast
    have "x \<in> set (x # xs)" by simp
    then have "x \<in> set (pre @ max_item x xs # post)" unfolding s .
    then have "snd x \<le> snd (max_item x xs)" using p q by auto
    then have b: "snd best < snd (max_item x xs)" using True by simp
    have "best # x # xs = (best # pre) @ max_item x xs # post" using s by simp
    moreover have "\<forall>y\<in>set (best # pre). snd y < snd (max_item x xs)" using p b by simp
    moreover have "max_item best (x # xs) = max_item x xs" using True by simp
    ultimately show ?thesis using q by metis
  next
    case False
    obtain pre post where s: "best # xs = pre @ max_item best xs # post"
      and p: "\<forall>y\<in>set pre. snd y < snd (max_item best xs)"
      and q: "\<forall>y\<in>set post. snd y \<le> snd (max_item best xs)"
      using Cons.IH [of best] by blast
    have m: "max_item best (x # xs) = max_item best xs" using False by simp
    show ?thesis
    proof (cases pre)
      case Nil
      have "best # xs = max_item best xs # post" using s unfolding Nil append_Nil .
      then have e: "max_item best xs = best" "post = xs" by (metis list.inject)+
      have "best # x # xs = [] @ best # (x # xs)" by simp
      moreover have "\<forall>y\<in>set (x # xs). snd y \<le> snd best" using q e False by auto
      ultimately have "best # x # xs = [] @ best # (x # xs)
          \<and> (\<forall>y\<in>set []. snd y < snd best)
          \<and> (\<forall>y\<in>set (x # xs). snd y \<le> snd best)" by simp
      then show ?thesis unfolding m e(1) by blast
    next
      case (Cons b pre')
      have "best # xs = b # (pre' @ max_item best xs # post)"
        using s unfolding Cons append_Cons .
      then have b: "b = best" and s': "xs = pre' @ max_item best xs # post"
        by (metis list.inject)+
      have "snd best < snd (max_item best xs)" using p Cons b by simp
      then have x: "snd x < snd (max_item best xs)" using False by simp
      have "best # x # xs = best # x # (pre' @ max_item best xs # post)"
        using s' by (rule arg_cong)
      then have "best # x # xs = (best # x # pre') @ max_item best xs # post"
        unfolding append_Cons .
      moreover have "\<forall>y\<in>set (best # x # pre'). snd y < snd (max_item best xs)"
        using p Cons b x by simp
      ultimately show ?thesis unfolding m using q by blast
    qed
  qed
qed

lemma first_pos_less:
  "m \<in> set xs \<Longrightarrow> length (takeWhile (\<lambda>x. x \<noteq> m) xs) < length xs"
  by (induction xs) auto

lemma first_seen_order:
  "map fst (foldl counters_incr [] tys) = pre @ m # post \<Longrightarrow> t \<in> set post \<Longrightarrow>
     length (takeWhile (\<lambda>x. x \<noteq> m) tys) < length (takeWhile (\<lambda>x. x \<noteq> t) tys)"
proof (induction tys arbitrary: post rule: rev_induct)
  case Nil
  then show ?case by simp
next
  case (snoc x xs)
  let ?keys = "map fst (foldl counters_incr [] xs)"
  have keys: "map fst (foldl counters_incr [] (xs @ [x]))
                = (if x \<in> set xs then ?keys else ?keys @ [x])"
    by (simp add: keys_counters_incr set_keys_count_types del: set_map)
  show ?case
  proof (cases "x \<in> set xs")
    case True
    then have k: "?keys = pre @ m # post" using snoc.prems(1) keys by simp
    have lt: "length (takeWhile (\<lambda>x. x \<noteq> m) xs) < length (takeWhile (\<lambda>x. x \<noteq> t) xs)"
      using snoc.IH [OF k snoc.prems(2)] .
    have "m \<in> set ?keys" "t \<in> set ?keys" using k snoc.prems(2) by simp_all
    then have "m \<in> set xs" "t \<in> set xs" unfolding set_keys_count_types by simp_all
    then have "takeWhile (\<lambda>x. x \<noteq> m) (xs @ [x]) = takeWhile (\<lambda>x. x \<noteq> m) xs"
      "takeWhile (\<lambda>x. x \<noteq> t) (xs @ [x]) = takeWhile (\<lambda>x. x \<noteq> t) xs"
      by (simp_all add: takeWhile_append1)
    then show ?thesis using lt by simp
  next
    case False
    then have k: "?keys @ [x] = pre @ m # post" using snoc.prems(1) keys by simp
    have "post \<noteq> []" using snoc.prems(2) by auto
    then have "post = butlast post @ [last post]" by simp
    then have "?keys @ [x] = (pre @ m # butlast post) @ [last post]" using k by simp
    then have "?keys = pre @ m # butlast post \<and> x = last post" by (simp only: append1_eq_conv)
    then obtain post' where post: "post = post' @ [x]" and k': "?keys = pre @ m # post'"
      using \<open>post = butlast post @ [last post]\<close> by metis
    have "m \<in> set ?keys" using k' by simp
    then have m: "m \<in> set xs" unfolding set_keys_count_types .
    then have tm: "takeWhile (\<lambda>x. x \<noteq> m) (xs @ [x]) = takeWhile (\<lambda>x. x \<noteq> m) xs"
      by (simp add: takeWhile_append1)
    show ?thesis
    proof (cases "t \<in> set post'")
      case True
      have lt: "length (takeWhile (\<lambda>x. x \<noteq> m) xs) < length (takeWhile (\<lambda>x. x \<noteq> t) xs)"
        using snoc.IH [OF k' True] .
      have "t \<in> set ?keys" using k' True by simp
      then have "t \<in> set xs" unfolding set_keys_count_types .
      then have "takeWhile (\<lambda>x. x \<noteq> t) (xs @ [x]) = takeWhile (\<lambda>x. x \<noteq> t) xs"
        by (simp add: takeWhile_append1)
      then show ?thesis using lt tm by simp
    next
      case False
      then have tx: "t = x" using snoc.prems(2) post by simp
      have "\<forall>y\<in>set xs. y \<noteq> t" using \<open>x \<notin> set xs\<close> tx by auto
      have n: "\<forall>y\<in>set xs. y \<noteq> t" using \<open>x \<notin> set xs\<close> tx by auto
      have "takeWhile (\<lambda>x. x \<noteq> t) (xs @ [x]) = xs @ takeWhile (\<lambda>x. x \<noteq> t) [x]"
        by (rule takeWhile_append2) (use n in blast)
      then have "takeWhile (\<lambda>x. x \<noteq> t) (xs @ [x]) = xs" using tx by simp
      moreover have "length (takeWhile (\<lambda>x. x \<noteq> m) xs) < length xs"
        using m by (rule first_pos_less)
      ultimately show ?thesis using tm by simp
    qed
  qed
qed


lemma add_error_counters:
  assumes "pattern_counters d = foldl counters_incr [] (map error_type (error_history d))"
  shows "pattern_counters (snd (add_error info d))
           = foldl counters_incr [] (map error_type (error_history (snd (add_error info d))))"
  using assms
  by (auto simp: add_error_def Let_def split: option.splits sum.splits)

lemma step_counters:
  assumes "pattern_counters d = foldl counters_incr [] (map error_type (error_history d))"
  shows "pattern_counters (step d x)
           = foldl counters_incr [] (map error_type (error_history (step d x)))"
proof (cases x)
  case (AddError info)
  then show ?thesis using add_error_counters [OF assms, of info] by simp
next
  case Reset
  then show ?thesis by (simp add: reset_def)
qed

lemma foldl_step_counters:
  "pattern_counters d = foldl counters_incr [] (map error_type (error_history d)) \<Longrightarrow>
   pattern_counters (foldl step d ops)
     = foldl counters_incr [] (map error_type (error_history (foldl step d ops)))"
proof (induction ops arbitrary: d)
  case Nil
  then show ?case by simp
next
  case (Cons x ops)
  show ?case using Cons.IH [OF step_counters [OF Cons.prems, of x]] by simp
qed

lemma run_counters:
  "pattern_counters (run ops)
     = foldl counters_incr [] (map error_type (error_history (run ops)))"
  unfolding run_def by (rule foldl_step_counters) (simp add: init_def)

lemma most_common_first_seen:
  assumes ne: "tys \<noteq> []"
  shows "\<exists>m. most_common_error (foldl counters_incr [] tys) = Some m
           \<and> m \<in> set tys
           \<and> (\<forall>t. count_list tys t \<le> count_list tys m)
           \<and> (\<forall>t. t \<noteq> m \<and> count_list tys t = count_list tys m \<longrightarrow>
                  length (takeWhile (\<lambda>x. x \<noteq> m) tys) < length (takeWhile (\<lambda>x. x \<noteq> t) tys))"
proof -
  let ?cs = "foldl counters_incr [] tys"
  have "set (map fst ?cs) \<noteq> {}" unfolding set_keys_count_types using ne by simp
  then obtain c rest where cs: "?cs = c # rest" by (cases ?cs) auto
  define r where "r = max_item c rest"
  obtain pre post where split: "c # rest = pre @ r # post"
    and p: "\<forall>x\<in>set pre. snd x < snd r"
    and q: "\<forall>x\<in>set post. snd x \<le> snd r"
    unfolding r_def using max_item_split [of c rest] by blast
  have mc: "most_common_error ?cs = Some (fst r)"
    by (simp add: most_common_error_def cs r_def)
  have dist: "distinct (map fst ?cs)" by (rule distinct_keys_count_types)
  have rin: "r \<in> set ?cs" unfolding cs split by simp
  then have "map_of ?cs (fst r) = Some (snd r)" using dist by simp
  then have r1: "fst r \<in> set tys" and r2: "snd r = count_list tys (fst r)"
    unfolding map_of_count_types by (simp_all split: if_splits)
  have mem: "(t, count_list tys t) \<in> set ?cs" if "t \<in> set tys" for t
  proof -
    have "map_of ?cs t = Some (count_list tys t)" using that by (simp add: map_of_count_types)
    then show ?thesis by (rule map_of_SomeD)
  qed
  have le: "count_list tys t \<le> count_list tys (fst r)" for t
  proof (cases "t \<in> set tys")
    case True
    have "(t, count_list tys t) \<in> set (pre @ r # post)"
      using mem [OF True] unfolding cs split .
    then have "snd (t, count_list tys t) \<le> snd r" using p q by auto
    then show ?thesis using r2 by simp
  next
    case False
    then show ?thesis by simp
  qed
  have first: "length (takeWhile (\<lambda>x. x \<noteq> fst r) tys) < length (takeWhile (\<lambda>x. x \<noteq> t) tys)"
    if t: "t \<noteq> fst r" "count_list tys t = count_list tys (fst r)" for t
  proof -
    have "count_list tys (fst r) \<noteq> 0" using r1 unfolding count_list_0_iff by simp
    then have "count_list tys t \<noteq> 0" using t(2) by simp
    then have tin: "t \<in> set tys" unfolding count_list_0_iff by simp
    have "(t, count_list tys t) \<in> set (pre @ r # post)"
      using mem [OF tin] unfolding cs split .
    moreover have "(t, count_list tys t) \<notin> set pre" using p t(2) r2 by auto
    moreover have "(t, count_list tys t) \<noteq> r" using t(1) by auto
    ultimately have "(t, count_list tys t) \<in> set post" by simp
    then have tp: "t \<in> set (map fst post)" by force
    have "map fst ?cs = map fst pre @ fst r # map fst post" unfolding cs split by simp
    then show ?thesis using tp by (rule first_seen_order)
  qed
  show ?thesis using mc r1 le first by blast
qed

text \<open>
  Claim C9. For a detector reached by \<^verbatim>\<open>add_error\<close> and \<^verbatim>\<open>reset\<close> calls whose
  history is not empty, \<^verbatim>\<open>get_statistics()['most_common_error']\<close> is a type \<open>m\<close> of
  greatest count, and every other type with the same count occurs for the first time
  later in the history than \<open>m\<close> does: among tied types the first seen wins.
\<close>

theorem most_common_error_first_seen:
  assumes "error_history (run ops) \<noteq> []"
  shows "\<exists>m. map_of (get_statistics (run ops)) ''most_common_error'' = Some (StatType (Some m))
     \<and> (\<forall>t. fst (counters_getitem (pattern_counters (run ops)) t)
             \<le> fst (counters_getitem (pattern_counters (run ops)) m))
     \<and> (\<forall>t. t \<noteq> m
             \<and> fst (counters_getitem (pattern_counters (run ops)) t)
                 = fst (counters_getitem (pattern_counters (run ops)) m)
           \<longrightarrow> length (takeWhile (\<lambda>x. x \<noteq> m) (map error_type (error_history (run ops))))
                 < length (takeWhile (\<lambda>x. x \<noteq> t) (map error_type (error_history (run ops)))))"
proof -
  define tys where "tys = map error_type (error_history (run ops))"
  have ne: "tys \<noteq> []" using assms by (simp add: tys_def)
  have pc: "pattern_counters (run ops) = foldl counters_incr [] tys"
    unfolding tys_def by (rule run_counters)
  have cnt: "fst (counters_getitem (pattern_counters (run ops)) t) = count_list tys t" for t
    unfolding pc fst_counters_getitem map_of_count_types by (simp add: count_list_0_iff)
  obtain m where m: "most_common_error (foldl counters_incr [] tys) = Some m"
    "\<forall>t. count_list tys t \<le> count_list tys m"
    "\<forall>t. t \<noteq> m \<and> count_list tys t = count_list tys m \<longrightarrow>
        length (takeWhile (\<lambda>x. x \<noteq> m) tys) < length (takeWhile (\<lambda>x. x \<noteq> t) tys)"
    using most_common_first_seen [OF ne] by blast
  have "map_of (get_statistics (run ops)) ''most_common_error'' = Some (StatType (Some m))"
    using assms m(1) by (simp add: get_statistics_def Let_def pc)
  then show ?thesis using m(2,3) unfolding cnt tys_def [symmetric] by blast
qed

lemma run_tie:
  "run [AddError (create_error_info ''ImportError'' [] 0 [] [] []),
        AddError (create_error_info ''SyntaxError'' [] 0 [] [] []),
        AddError (create_error_info ''SyntaxError'' [] 0 [] [] []),
        AddError (create_error_info ''ImportError'' [] 0 [] [] [])]
   = \<lparr>error_history =
        [\<lparr>timestamp = 0, error_type = Import, message = PyStr ''ImportError'',
          file_name = [], line = 0, action = [], code_snippet = [], traceback = []\<rparr>,
         \<lparr>timestamp = 1, error_type = Syntax, message = PyStr ''SyntaxError'',
          file_name = [], line = 0, action = [], code_snippet = [], traceback = []\<rparr>,
         \<lparr>timestamp = 2, error_type = Syntax, message = PyStr ''SyntaxError'',
          file_name = [], line = 0, action = [], code_snippet = [], traceback = []\<rparr>,
         \<lparr>timestamp = 3, error_type = Import, message = PyStr ''ImportError'',
          file_name = [], line = 0, action = [], code_snippet = [], traceback = []\<rparr>],
      pattern_counters = [(Import, 2), (Syntax, 2)]\<rparr>"
  by code_simp

theorem most_common_error_first_seen_witness:
  "error_history (run
       [AddError (create_error_info ''ImportError'' [] 0 [] [] []),
        AddError (create_error_info ''SyntaxError'' [] 0 [] [] []),
        AddError (create_error_info ''SyntaxError'' [] 0 [] [] []),
        AddError (create_error_info ''ImportError'' [] 0 [] [] [])]) \<noteq> []
   \<and> map_of (get_statistics (run
       [AddError (create_error_info ''ImportError'' [] 0 [] [] []),
        AddError (create_error_info ''SyntaxError'' [] 0 [] [] []),
        AddError (create_error_info ''SyntaxError'' [] 0 [] [] []),
        AddError (create_error_info ''ImportError'' [] 0 [] [] [])])) ''most_common_error''
       = Some (StatType (Some Import))"
  using most_common_error_first_seen [of
       "[AddError (create_error_info ''ImportError'' [] 0 [] [] []),
        AddError (create_error_info ''SyntaxError'' [] 0 [] [] []),
        AddError (create_error_info ''SyntaxError'' [] 0 [] [] []),
        AddError (create_error_info ''ImportError'' [] 0 [] [] [])]"]
  unfolding run_tie
  by (simp add: get_statistics_def most_common_error_def Let_def)

section \<open>Properties of the recovery suggestion\<close>
























end
